theory Spec2Isabelle
  imports Complex_Main "HOL-Library.Sublist" "HOL-Library.Multiset"
begin

section \<open>The quiz core of \<open>models.py\<close>\<close>

text \<open>
  The development embeds the four classes of \<open>models.py\<close>: \<open>Question\<close>,
  \<open>QuestionDataset\<close>, \<open>QuizGenerator\<close> and \<open>QuizCorrector\<close>.

  Conventions of the embedding.
  \<^item> Values have the types the Python annotations declare: option strings are
    \<open>string\<close>, \<open>List[str]\<close> is \<open>string list\<close>, \<open>Dict[int, List[str]]\<close> is a map from
    \<open>int\<close> to \<open>string list\<close>.
  \<^item> A raised exception is a value \<open>Inl e\<close> of a sum type; \<open>Inr v\<close> is a normal return.
    Every division and every subscript of the source has its failing branch written out.
  \<^item> Python's \<open>float\<close> scores are exact rationals (\<open>rat\<close>). The scores are quotients
    of list lengths, their differences, sums and one multiplication by 100; rounding of
    binary floating point is outside this model.
  \<^item> \<open>QuestionDataset.__new__\<close> (the shared instance), \<open>all_tags\<close>, \<open>to_dict\<close>,
    \<open>as_dict_list\<close> and \<open>__repr__\<close> take no part in the properties proved and are left
    out.
\<close>

subsection \<open>Exceptions\<close>

datatype py_error =
    FileNotFoundError
  | IsADirectoryError
  | PermissionError
  | JSONDecodeError
  | UnicodeDecodeError
  | TypeError
  | AttributeError
  | ZeroDivisionError
  | IndexError

text \<open>\<open>a / b\<close>: true division, raising on a zero divisor.\<close>

definition py_truediv :: "rat \<Rightarrow> rat \<Rightarrow> py_error + rat" where
  "py_truediv a b = (if b = 0 then Inl ZeroDivisionError else Inr (a / b))"

text \<open>\<open>xs[i]\<close> for a non-negative index \<open>i\<close>.\<close>

definition py_getitem :: "'a list \<Rightarrow> nat \<Rightarrow> py_error + 'a" where
  "py_getitem xs i = (if i < length xs then Inr (xs ! i) else Inl IndexError)"

subsection \<open>\<open>class Question\<close>\<close>

record Question =
  question :: string
  choices :: "string list"
  correct :: "string list"
  mode :: string
  tags :: "string list"

definition is_single :: "Question \<Rightarrow> bool" where
  "is_single q = (mode q = ''single'')"

definition is_multiple :: "Question \<Rightarrow> bool" where
  "is_multiple q = (mode q = ''multiple'')"

definition is_single_choice :: "Question \<Rightarrow> bool" where
  "is_single_choice q = is_single q"

subsection \<open>\<open>class QuizCorrector\<close>: the two scoring strategies\<close>

text \<open>
  \<^verbatim>\<open>
  if not correct: return 0.0
  return 1.0 if len(selected) == 1 and selected[0] in correct else 0.0
  \<close>
  \<open>and\<close> evaluates \<open>selected[0]\<close> only when the length test succeeded.
\<close>

definition score_single :: "string list \<Rightarrow> string list \<Rightarrow> py_error + rat" where
  "score_single corr selected =
     (if corr = [] then Inr 0
      else if length selected = 1 then
        (case py_getitem selected 0 of
           Inl e \<Rightarrow> Inl e
         | Inr x \<Rightarrow> Inr (if x \<in> set corr then 1 else 0))
      else Inr 0)"

text \<open>
  \<^verbatim>\<open>
  correct_set = set(correct); selected_set = set(selected or [])
  if not correct_set: return 0.0
  intersect = correct_set.intersection(selected_set)
  false_selected = selected_set - correct_set
  numerator = len(intersect); denom = len(correct_set)
  score = (numerator / denom) - (len(false_selected) / denom)
  return max(0.0, score)
  \<close>
  On a list, \<open>selected or []\<close> is the list itself (an empty list is replaced by an
  empty list).
\<close>

definition score_multiple :: "string list \<Rightarrow> string list \<Rightarrow> py_error + rat" where
  "score_multiple corr selected =
     (let correct_set = set corr;
          selected_set = set selected
      in if correct_set = {} then Inr 0
         else
           (let intersect = correct_set \<inter> selected_set;
                false_selected = selected_set - correct_set;
                numerator = card intersect;
                denom = card correct_set
            in case py_truediv (of_nat numerator) (of_nat denom) of
                 Inl e \<Rightarrow> Inl e
               | Inr a \<Rightarrow>
                   (case py_truediv (of_nat (card false_selected)) (of_nat denom) of
                      Inl e \<Rightarrow> Inl e
                    | Inr b \<Rightarrow> Inr (max 0 (a - b)))))"

subsection \<open>\<open>QuizCorrector.correct_quiz\<close>\<close>

text \<open>One dictionary of the \<open>per_question\<close> list, and the dictionary returned.\<close>

record question_score =
  pq_index :: int
  pq_question :: string
  pq_mode :: string
  pq_correct :: "string list"
  pq_selected :: "string list"
  pq_score :: rat
  pq_max_score :: rat

record quiz_result =
  per_question :: "question_score list"
  total_score :: rat

text \<open>\<open>answers.get(i, [])\<close>\<close>

definition answers_get :: "(int \<rightharpoonup> string list) \<Rightarrow> int \<Rightarrow> string list" where
  "answers_get answers i = (case answers i of None \<Rightarrow> [] | Some selected \<Rightarrow> selected)"

text \<open>
  The body of \<open>for i, q in enumerate(questions)\<close>: the strategy is chosen by
  \<open>q.is_single()\<close>, every other mode takes the \<open>else\<close> branch.
\<close>

definition score_question :: "Question \<Rightarrow> string list \<Rightarrow> py_error + rat" where
  "score_question q selected =
     (if is_single q then score_single (correct q) selected
      else score_multiple (correct q) selected)"

text \<open>
  The loop, with its two accumulators \<open>per_question\<close> and \<open>total_points\<close>; \<open>i\<close> is
  the counter of \<open>enumerate\<close>.
\<close>

fun correct_loop ::
  "(int \<rightharpoonup> string list) \<Rightarrow> int \<Rightarrow> Question list \<Rightarrow> question_score list \<Rightarrow> rat
     \<Rightarrow> py_error + (question_score list \<times> rat)" where
  "correct_loop answers i [] acc total_points = Inr (acc, total_points)"
| "correct_loop answers i (q # qs) acc total_points =
     (let selected = answers_get answers i
      in case score_question q selected of
           Inl e \<Rightarrow> Inl e
         | Inr s \<Rightarrow>
             correct_loop answers (i + 1) qs
               (acc @ [\<lparr>pq_index = i, pq_question = question q, pq_mode = mode q,
                        pq_correct = correct q, pq_selected = selected,
                        pq_score = s, pq_max_score = 1\<rparr>])
               (total_points + s))"

text \<open>
  \<^verbatim>\<open>
  if questions: total_score_pct = (total_points / len(questions)) * 100.0
  else:         total_score_pct = 0.0
  \<close>
\<close>

definition correct_quiz :: "Question list \<Rightarrow> (int \<rightharpoonup> string list) \<Rightarrow> py_error + quiz_result" where
  "correct_quiz questions answers =
     (case correct_loop answers 0 questions [] 0 of
        Inl e \<Rightarrow> Inl e
      | Inr (acc, total_points) \<Rightarrow>
          if questions \<noteq> [] then
            (case py_truediv total_points (of_nat (length questions)) of
               Inl e \<Rightarrow> Inl e
             | Inr avg \<Rightarrow> Inr \<lparr>per_question = acc, total_score = avg * 100\<rparr>)
          else Inr \<lparr>per_question = acc, total_score = 0\<rparr>)"

subsection \<open>Objects: the store\<close>

text \<open>
  Python lists and the dataset object are mutable and shared by reference, so they live
  in a store: a reference is a number, \<open>lists\<close> holds the contents of the list objects,
  \<open>datasets\<close> the attributes of the \<open>QuestionDataset\<close> objects, and \<open>next_ref\<close> is the
  first reference not yet handed out. \<open>Question\<close> objects are never assigned to after
  their construction, so a list holds them by value.
\<close>

type_synonym ref = nat

record QuestionDataset =
  questions :: ref
  file_path :: "string option"

record heap =
  lists :: "ref \<Rightarrow> Question list"
  datasets :: "ref \<Rightarrow> QuestionDataset"
  next_ref :: ref

text \<open>A new list object (\<open>[]\<close>, \<open>list(xs)\<close>, a comprehension, a slice).\<close>

definition new_list :: "Question list \<Rightarrow> heap \<Rightarrow> ref \<times> heap" where
  "new_list xs h =
     (next_ref h, h\<lparr>lists := (lists h)(next_ref h := xs), next_ref := Suc (next_ref h)\<rparr>)"

subsection \<open>\<open>QuestionDataset.get_questions_by_tags\<close>\<close>

text \<open>
  \<^verbatim>\<open>
  if not tags: return list(self.questions)
  tags_set = set(tags)
  filtered = [q for q in self.questions if tags_set.intersection(q.tags)]
  return filtered
  \<close>
  \<open>not tags\<close> holds for \<open>None\<close> and for the empty list. Both branches return a new list
  object.
\<close>

definition get_questions_by_tags :: "ref \<Rightarrow> string list option \<Rightarrow> heap \<Rightarrow> ref \<times> heap" where
  "get_questions_by_tags self tgs h =
     (let self_questions = lists h (questions (datasets h self))
      in case tgs of
           None \<Rightarrow> new_list self_questions h
         | Some ts \<Rightarrow>
             if ts = [] then new_list self_questions h
             else
               (let tags_set = set ts;
                    filtered = filter (\<lambda>q. tags_set \<inter> set (tags q) \<noteq> {}) self_questions
                in new_list filtered h))"

subsection \<open>\<open>class QuizGenerator\<close>\<close>

record QuizGenerator =
  dataset :: ref

text \<open>
  \<open>random.shuffle(x)\<close> of the standard library:
  \<^verbatim>\<open>
  for i in reversed(range(1, len(x))):
      j = randbelow(i + 1)
      x[i], x[j] = x[j], x[i]
  \<close>
  The random source is a parameter: \<open>draws i\<close> is the number drawn at index \<open>i\<close>,
  reduced into \<open>range(i + 1)\<close>. Every run of the shuffle is \<open>shuffle draws\<close> for some
  \<open>draws\<close>.
\<close>

fun shuffle_from :: "(nat \<Rightarrow> nat) \<Rightarrow> nat \<Rightarrow> 'a list \<Rightarrow> 'a list" where
  "shuffle_from draws 0 xs = xs"
| "shuffle_from draws (Suc i) xs =
     (let j = draws (Suc i) mod (Suc i + 1)
      in shuffle_from draws i (xs[Suc i := xs ! j, j := xs ! Suc i]))"

definition shuffle :: "(nat \<Rightarrow> nat) \<Rightarrow> 'a list \<Rightarrow> 'a list" where
  "shuffle draws xs = shuffle_from draws (length xs - 1) xs"

text \<open>The shuffle works in place: the list object at \<open>r\<close> gets the new order.\<close>

definition random_shuffle :: "(nat \<Rightarrow> nat) \<Rightarrow> ref \<Rightarrow> heap \<Rightarrow> heap" where
  "random_shuffle draws r h = h\<lparr>lists := (lists h)(r := shuffle draws (lists h r))\<rparr>"

text \<open>
  \<open>xs[:k]\<close> for an \<open>int\<close> \<open>k\<close>: a negative \<open>k\<close> counts from the end, and the bounds are
  clipped to the list.
\<close>

definition py_slice_to :: "'a list \<Rightarrow> int \<Rightarrow> 'a list" where
  "py_slice_to xs k = (if k < 0 then take (nat (int (length xs) + k)) xs else take (nat k) xs)"

text \<open>
  \<^verbatim>\<open>
  pool = self.dataset.get_questions_by_tags(tags)
  if not pool: return []
  if shuffle: random.shuffle(pool)
  selected = pool[:min(n_questions, len(pool))]
  return selected
  \<close>
\<close>

definition generate ::
  "QuizGenerator \<Rightarrow> string list option \<Rightarrow> int \<Rightarrow> bool \<Rightarrow> (nat \<Rightarrow> nat) \<Rightarrow> heap \<Rightarrow> ref \<times> heap" where
  "generate self tgs n_questions shuffle_flag draws h =
     (case get_questions_by_tags (dataset self) tgs h of
        (pool, h1) \<Rightarrow>
          if lists h1 pool = [] then new_list [] h1
          else
            (let h2 = (if shuffle_flag then random_shuffle draws pool h1 else h1);
                 selected = py_slice_to (lists h2 pool)
                              (min n_questions (int (length (lists h2 pool))))
             in new_list selected h2))"

subsection \<open>\<open>QuestionDataset.load\<close>\<close>

text \<open>
  What \<open>json.load\<close> returns: \<open>None\<close>, a \<open>bool\<close>, a number, a \<open>str\<close>, a \<open>list\<close> or a
  \<open>dict\<close> with string keys. An object is kept as the list of its members in the order
  of the file; of two members with one key the later one is the value of the key.
\<close>

datatype json =
    JNull
  | JBool bool
  | JNum rat
  | JStr string
  | JArr "json list"
  | JObj "(string \<times> json) list"

text \<open>
  What \<open>load\<close> finds at a path. \<open>Directory\<close> and \<open>Unreadable\<close> exist but cannot be
  opened for reading, \<open>NotUtf8\<close> and \<open>NotJson\<close> open but \<open>json.load\<close> raises on their
  content, \<open>Json v\<close> is a file whose content \<open>json.load\<close> parses to \<open>v\<close>. A file system
  maps a path to what is there, and an absent path to \<open>None\<close>. Paths are strings in the
  form \<open>str(Path(p))\<close> gives them.
\<close>

datatype fs_node = Directory | Unreadable | NotUtf8 | NotJson | Json json

text \<open>
  The fields of \<open>Question\<close> are typed here as the constructor's annotations declare
  them, and JSON can hold other values in their place (a number as the prompt, say),
  which Python stores as they are. Such a call is outside the typed records: its outcome
  is \<open>Untyped\<close>, about which nothing is claimed.
\<close>

datatype 'a outcome = Raised py_error | Returned 'a | Untyped

fun as_str :: "json \<Rightarrow> string option" where
  "as_str (JStr s) = Some s"
| "as_str _ = None"

fun as_strs :: "json list \<Rightarrow> string list option" where
  "as_strs [] = Some []"
| "as_strs (JStr s # vs) = (case as_strs vs of None \<Rightarrow> None | Some ss \<Rightarrow> Some (s # ss))"
| "as_strs (_ # vs) = None"

fun as_str_list :: "json \<Rightarrow> string list option" where
  "as_str_list (JArr vs) = as_strs vs"
| "as_str_list _ = None"

text \<open>
  \<open>Question.__init__\<close>:
  \<^verbatim>\<open>
  self.question = question
  self.choices = choices
  self.correct = list(correct) if correct is not None else []
  self.mode = mode
  self.tags = tags or []
  \<close>
  \<open>list(correct)\<close> raises \<open>TypeError\<close> on a number or a \<open>bool\<close>; nothing else in the
  constructor raises. \<open>None\<close> is accepted for \<open>correct\<close> and for \<open>tags\<close> and gives the
  empty list.
\<close>

definition Question_init :: "json \<Rightarrow> json \<Rightarrow> json \<Rightarrow> json \<Rightarrow> json \<Rightarrow> Question outcome" where
  "Question_init q ch corr m tg =
     (case corr of
        JNum _ \<Rightarrow> Raised TypeError
      | JBool _ \<Rightarrow> Raised TypeError
      | _ \<Rightarrow>
        (case (as_str q, as_str_list ch,
               if corr = JNull then Some [] else as_str_list corr,
               as_str m,
               if tg = JNull then Some [] else as_str_list tg) of
           (Some q', Some ch', Some corr', Some m', Some tg') \<Rightarrow>
             Returned \<lparr>question = q', choices = ch', correct = corr', mode = m', tags = tg'\<rparr>
         | _ \<Rightarrow> Untyped))"

text \<open>\<open>d.get(key, default)\<close> on the members of an object.\<close>

definition obj_get :: "(string \<times> json) list \<Rightarrow> string \<Rightarrow> json \<Rightarrow> json" where
  "obj_get kvs key dflt = (case map_of (rev kvs) key of None \<Rightarrow> dflt | Some v \<Rightarrow> v)"

text \<open>
  The body of \<open>for item in data\<close>:
  \<^verbatim>\<open>
  q = Question(question=item.get("question", ""), choices=item.get("choices", []),
               correct=item.get("correct", []), mode=item.get("mode", "single"),
               tags=item.get("tags", []))
  \<close>
  Only a \<open>dict\<close> has \<open>get\<close>: on any other value the first \<open>item.get\<close> raises
  \<open>AttributeError\<close>.
\<close>

definition load_item :: "json \<Rightarrow> Question outcome" where
  "load_item item =
     (case item of
        JObj kvs \<Rightarrow>
          Question_init (obj_get kvs ''question'' (JStr []))
                        (obj_get kvs ''choices'' (JArr []))
                        (obj_get kvs ''correct'' (JArr []))
                        (obj_get kvs ''mode'' (JStr ''single''))
                        (obj_get kvs ''tags'' (JArr []))
      | _ \<Rightarrow> Raised AttributeError)"

text \<open>
  What \<open>for item in data\<close> iterates over: the elements of a list, the keys of a
  \<open>dict\<close> (each once, in the order of their first occurrence), the characters of a
  \<open>str\<close>; \<open>None\<close>, a \<open>bool\<close> and a number are not iterable.
\<close>

definition py_iter :: "json \<Rightarrow> py_error + json list" where
  "py_iter data =
     (case data of
        JArr vs \<Rightarrow> Inr vs
      | JObj kvs \<Rightarrow> Inr (map JStr (rev (remdups (rev (map fst kvs)))))
      | JStr s \<Rightarrow> Inr (map (\<lambda>c. JStr [c]) s)
      | _ \<Rightarrow> Inl TypeError)"

text \<open>
  The loop appends to the local list \<open>questions\<close>. An exception leaves the loop at
  once. After an \<open>Untyped\<close> item the loop goes on, since a later item may still raise.
\<close>

fun load_loop :: "json list \<Rightarrow> Question list \<Rightarrow> Question list outcome" where
  "load_loop [] acc = Returned acc"
| "load_loop (item # items) acc =
     (case load_item item of
        Raised e \<Rightarrow> Raised e
      | Returned q \<Rightarrow> load_loop items (acc @ [q])
      | Untyped \<Rightarrow> (case load_loop items acc of Raised e \<Rightarrow> Raised e | _ \<Rightarrow> Untyped))"

text \<open>
  \<^verbatim>\<open>
  if file_path is None: file_path = Path(__file__).parent / "quiz_dataset.json"
  fp = Path(file_path)
  if not fp.exists(): raise FileNotFoundError(...)
  with fp.open("r", encoding="utf-8") as f: data = json.load(f)
  questions = []
  for item in data: ...; questions.append(q)
  self.questions = questions
  self.file_path = str(fp)
  return self
  \<close>
  \<open>default_path\<close> is the path of \<open>quiz_dataset.json\<close> beside the module. The local
  list is built as a value and becomes a list object when it is assigned to
  \<open>self.questions\<close>; the list object an interrupted loop leaves behind is referenced by
  nothing and is not modelled. With the outcome \<open>Untyped\<close> the store returned is the one
  \<open>load\<close> started from and stands for nothing.
\<close>

definition load ::
  "ref \<Rightarrow> string option \<Rightarrow> string \<Rightarrow> (string \<rightharpoonup> fs_node) \<Rightarrow> heap \<Rightarrow> ref outcome \<times> heap" where
  "load self path default_path fs h =
     (let fp = (case path of None \<Rightarrow> default_path | Some p \<Rightarrow> p)
      in case fs fp of
           None \<Rightarrow> (Raised FileNotFoundError, h)
         | Some Directory \<Rightarrow> (Raised IsADirectoryError, h)
         | Some Unreadable \<Rightarrow> (Raised PermissionError, h)
         | Some NotUtf8 \<Rightarrow> (Raised UnicodeDecodeError, h)
         | Some NotJson \<Rightarrow> (Raised JSONDecodeError, h)
         | Some (Json data) \<Rightarrow>
             (case py_iter data of
                Inl e \<Rightarrow> (Raised e, h)
              | Inr items \<Rightarrow>
                  (case load_loop items [] of
                     Raised e \<Rightarrow> (Raised e, h)
                   | Untyped \<Rightarrow> (Untyped, h)
                   | Returned qs \<Rightarrow>
                       (case new_list qs h of
                          (r, h1) \<Rightarrow>
                            (Returned self,
                             h1\<lparr>datasets := (datasets h1)
                                   (self := \<lparr>questions = r, file_path = Some fp\<rparr>)\<rparr>)))))"

subsection \<open>Observations\<close>

text \<open>
  The contents of the list object a call returns, read from the store the call leaves:
  \<open>pool_of\<close> for \<open>get_questions_by_tags\<close>, \<open>quiz_of\<close> for \<open>generate\<close>.
\<close>

definition pool_of :: "ref \<Rightarrow> string list option \<Rightarrow> heap \<Rightarrow> Question list" where
  "pool_of self tgs h =
     lists (snd (get_questions_by_tags self tgs h)) (fst (get_questions_by_tags self tgs h))"

definition quiz_of :: "ref \<times> heap \<Rightarrow> Question list" where
  "quiz_of res = lists (snd res) (fst res)"

subsection \<open>The filter as the specification words it\<close>

text \<open>
  The specification's \<open>questionsByTags(tags)\<close>, in its words: every question whose tag
  set intersects the filter set, in load order; the full sequence when the filter set is
  empty. \<open>tag_filter\<close> is the filter set of an argument (\<open>None\<close> is the omitted one).
\<close>

definition questionsByTags_spec :: "string set \<Rightarrow> Question list \<Rightarrow> Question list" where
  "questionsByTags_spec T qs = (if T = {} then qs else filter (\<lambda>q. set (tags q) \<inter> T \<noteq> {}) qs)"

definition tag_filter :: "string list option \<Rightarrow> string set" where
  "tag_filter tgs = (case tgs of None \<Rightarrow> {} | Some ts \<Rightarrow> set ts)"

subsection \<open>Example data\<close>

text \<open>The questions of the scenarios of the specification.\<close>

definition q_paris :: Question where
  "q_paris = \<lparr>question = ''Capital of France?'', choices = [''Paris'', ''Lyon''],
              correct = [''Paris''], mode = ''single'', tags = [''geography'']\<rparr>"

definition q_letters :: Question where
  "q_letters = \<lparr>question = ''Which letters are vowels?'', choices = [''A'', ''B'', ''E'', ''D''],
                correct = [''A'', ''E''], mode = ''multiple'', tags = [''letters'']\<rparr>"

definition q_rome :: Question where
  "q_rome = \<lparr>question = ''Capital of Italy?'', choices = [''Rome'', ''Milan''],
             correct = [''Rome''], mode = ''single'', tags = [''geography'', ''europe'']\<rparr>"

text \<open>
  A store with one dataset object (at reference 0) whose questions are the list object at
  reference 1, a generator on that dataset, and a random source whose every draw is 0.
\<close>

definition h_example :: heap where
  "h_example =
     \<lparr>lists = (\<lambda>r. [])(1 := [q_paris, q_letters, q_rome]),
      datasets = (\<lambda>r. \<lparr>questions = 1, file_path = Some ''quiz_dataset.json''\<rparr>),
      next_ref = 2\<rparr>"

definition g_example :: QuizGenerator where
  "g_example = \<lparr>dataset = 0\<rparr>"

definition first_draws :: "nat \<Rightarrow> nat" where
  "first_draws i = 0"

text \<open>
  Records of a dataset file: the first has no \<open>mode\<close> member, the third has a mode
  that is neither \<open>single\<close> nor \<open>multiple\<close>; \<open>q_both\<close> is the question the third
  loads as. \<open>fs_example\<close> is a file system with a dataset file, a directory, a file that
  is not JSON, and three files of JSON that is not an array of objects.
\<close>

definition rec_paris :: json where
  "rec_paris = JObj [(''question'', JStr ''Capital of France?''),
                     (''choices'', JArr [JStr ''Paris'', JStr ''Lyon'']),
                     (''correct'', JArr [JStr ''Paris'']),
                     (''tags'', JArr [JStr ''geography''])]"

definition rec_letters :: json where
  "rec_letters = JObj [(''question'', JStr ''Which letters are vowels?''),
                       (''choices'', JArr [JStr ''A'', JStr ''B'', JStr ''E'', JStr ''D'']),
                       (''correct'', JArr [JStr ''A'', JStr ''E'']),
                       (''mode'', JStr ''multiple''),
                       (''tags'', JArr [JStr ''letters''])]"

definition rec_both :: json where
  "rec_both = JObj [(''question'', JStr ''Which letters are vowels?''),
                    (''choices'', JArr [JStr ''A'', JStr ''B'', JStr ''E'', JStr ''D'']),
                    (''correct'', JArr [JStr ''A'', JStr ''E'']),
                    (''mode'', JStr ''both''),
                    (''tags'', JArr [JStr ''letters''])]"

definition q_both :: Question where
  "q_both = \<lparr>question = ''Which letters are vowels?'', choices = [''A'', ''B'', ''E'', ''D''],
             correct = [''A'', ''E''], mode = ''both'', tags = [''letters'']\<rparr>"

definition fs_example :: "string \<rightharpoonup> fs_node" where
  "fs_example = map_of [(''quiz_dataset.json'', Json (JArr [rec_paris, rec_letters])),
                        (''data'', Directory),
                        (''broken.json'', NotJson),
                        (''numbers.json'', Json (JArr [JNum 1])),
                        (''five.json'', Json (JNum 5)),
                        (''empty_object.json'', Json (JObj []))]"

section \<open>Properties of the scoring strategies\<close>

lemma score_multiple_nonempty:
  assumes "corr \<noteq> []"
  shows "score_multiple corr selected =
           Inr (max 0 (of_nat (card (set corr \<inter> set selected)) / of_nat (card (set corr))
                       - of_nat (card (set selected - set corr)) / of_nat (card (set corr))))"
proof -
  have "card (set corr) \<noteq> 0"
    using assms by simp
  with assms show ?thesis
    by (simp add: score_multiple_def py_truediv_def Let_def)
qed

lemma score_multiple_empty: "score_multiple [] selected = Inr 0"
  by (simp add: score_multiple_def)

lemma score_multiple_set_eq:
  assumes "set selected = set selected'"
  shows "score_multiple corr selected = score_multiple corr selected'"
  using assms by (simp add: score_multiple_def)

text \<open>Scenario C of the specification, evaluated on the code.\<close>

lemma scenario_C_all_correct: "score_multiple [''A'', ''B''] [''A'', ''B''] = Inr 1"
  by (simp add: score_multiple_def py_truediv_def Let_def)

lemma scenario_C_one_of_two: "score_multiple [''A'', ''B''] [''A''] = Inr (1 / 2)"
  by (simp add: score_multiple_def py_truediv_def Let_def)

lemma scenario_C_one_wrong: "score_multiple [''A'', ''B''] [''A'', ''B'', ''C''] = Inr (1 / 2)"
  by (simp add: score_multiple_def py_truediv_def Let_def)

lemma scenario_C_all_wrong: "score_multiple [''A'', ''B''] [''C'', ''D''] = Inr 0"
  by (simp add: score_multiple_def py_truediv_def Let_def)

text \<open>
  Claim C1. For every list of correct answers and every selection, \<open>score_multiple\<close>
  returns normally, and its result is
  \<open>max(0, |correct \<inter> selected| / |correct| - |selected - correct| / |correct|)\<close> over the
  sets of the two lists; the result is never negative, and it is 0 when the set of correct
  answers is empty.
\<close>

theorem score_multiple_formula:
  "score_multiple corr selected =
     Inr (if set corr = {} then 0
          else max 0 (of_nat (card (set corr \<inter> set selected)) / of_nat (card (set corr))
                      - of_nat (card (set selected - set corr)) / of_nat (card (set corr))))
   \<and> (\<exists>r. score_multiple corr selected = Inr r \<and> 0 \<le> r)"
proof (cases "corr = []")
  case True
  then show ?thesis by (simp add: score_multiple_empty)
next
  case False
  then show ?thesis by (simp add: score_multiple_nonempty)
qed

text \<open>
  Claim C2. \<open>score_single\<close> returns normally, and its result is 1 exactly when the
  selection holds one option and that option is among the correct answers; in every other
  case (no selection, more than one, a selection that is not correct, no correct answer at
  all) it is 0. No other value is returned. The selection is the list passed, so its
  options are counted by \<open>len\<close>; for a list without repetitions, which is how a set of
  options is passed, that is the number of options of the set.
\<close>

theorem score_single_one_or_zero:
  "score_single corr selected =
     Inr (if (\<exists>x. selected = [x] \<and> x \<in> set corr) then 1 else 0)
   \<and> (score_single corr selected = Inr 1 \<or> score_single corr selected = Inr 0)
   \<and> score_single [] selected = Inr 0
   \<and> score_single corr [] = Inr 0
   \<and> score_single corr (x # y # zs) = Inr 0
   \<and> (distinct selected \<longrightarrow>
        (score_single corr selected = Inr 1
           \<longleftrightarrow> card (set selected) = 1 \<and> set selected \<subseteq> set corr))"
proof -
  have one: "length selected = 1 \<longleftrightarrow> (\<exists>x. selected = [x])"
    by (cases selected) auto
  have main: "score_single corr selected =
     Inr (if (\<exists>x. selected = [x] \<and> x \<in> set corr) then 1 else 0)"
  proof (cases "length selected = 1")
    case True
    then obtain x where "selected = [x]" using one by blast
    then show ?thesis by (auto simp: score_single_def py_getitem_def)
  next
    case False
    then have "\<not> (\<exists>x. selected = [x] \<and> x \<in> set corr)" using one by blast
    with False show ?thesis by (auto simp: score_single_def)
  qed
  have "score_single corr selected = Inr 1 \<or> score_single corr selected = Inr 0"
    unfolding main by simp
  moreover have "score_single [] selected = Inr 0"
    by (simp add: score_single_def)
  moreover have "score_single corr [] = Inr 0"
    by (simp add: score_single_def)
  moreover have "score_single corr (x # y # zs) = Inr 0"
    by (simp add: score_single_def)
  moreover have "score_single corr selected = Inr 1
           \<longleftrightarrow> card (set selected) = 1 \<and> set selected \<subseteq> set corr"
    if d: "distinct selected"
  proof -
    have "card (set selected) = length selected"
      using d by (rule distinct_card)
    then have "card (set selected) = 1 \<longleftrightarrow> (\<exists>x. selected = [x])"
      using one by simp
    then show ?thesis unfolding main by auto
  qed
  ultimately show ?thesis using main by blast
qed

theorem score_single_one_or_zero_witness:
  "distinct [''Paris'']
   \<and> card (set [''Paris'']) = 1 \<and> set [''Paris''] \<subseteq> set [''Paris'', ''Lyon'']
   \<and> score_single [''Paris'', ''Lyon''] [''Paris''] = Inr 1"
proof -
  have d: "distinct [''Paris'']" by simp
  have c: "card (set [''Paris'']) = 1 \<and> set [''Paris''] \<subseteq> set [''Paris'', ''Lyon'']"
    by simp
  from score_single_one_or_zero [of "[''Paris'', ''Lyon'']" "[''Paris'']"] d c
  have "score_single [''Paris'', ''Lyon''] [''Paris''] = Inr 1"
    by blast
  with d c show ?thesis by blast
qed

text \<open>
  Claim C10. \<open>score_multiple\<close> depends on the selection only through its set: two
  selections with the same options, in whatever order and with whatever repetitions, get
  the same score, and the score of a selection is the score of its duplicate-free form.
\<close>

theorem score_multiple_dedup_reorder:
  assumes "set selected' = set selected"
  shows "score_multiple corr selected' = score_multiple corr selected
         \<and> score_multiple corr (remdups selected) = score_multiple corr selected"
proof
  show "score_multiple corr selected' = score_multiple corr selected"
    using assms by (rule score_multiple_set_eq)
  show "score_multiple corr (remdups selected) = score_multiple corr selected"
    by (rule score_multiple_set_eq) simp
qed

theorem score_multiple_dedup_reorder_witness:
  "set [''B'', ''C'', ''A'', ''C''] = set [''A'', ''B'', ''C'']
   \<and> score_multiple [''A'', ''B''] [''B'', ''C'', ''A'', ''C'']
       = score_multiple [''A'', ''B''] [''A'', ''B'', ''C'']
   \<and> score_multiple [''A'', ''B''] (remdups [''A'', ''B'', ''C''])
       = score_multiple [''A'', ''B''] [''A'', ''B'', ''C'']"
proof -
  have h: "set [''B'', ''C'', ''A'', ''C''] = set [''A'', ''B'', ''C'']"
    by auto
  show ?thesis
    by (rule conjI [OF h score_multiple_dedup_reorder [OF h]])
qed

section \<open>Properties of \<open>correct_quiz\<close>\<close>

lemma score_single_bounds:
  "\<exists>s. score_single corr selected = Inr s \<and> 0 \<le> s \<and> s \<le> 1"
  by (cases selected) (auto simp: score_single_def py_getitem_def)

lemma card_inter_le: "card (set corr \<inter> set selected) \<le> card (set corr)"
  by (simp add: card_mono)

lemma score_multiple_bounds:
  "\<exists>s. score_multiple corr selected = Inr s \<and> 0 \<le> s \<and> s \<le> 1"
proof (cases "corr = []")
  case True
  then show ?thesis by (simp add: score_multiple_empty)
next
  case False
  let ?c = "rat_of_nat (card (set corr))"
  let ?a = "rat_of_nat (card (set corr \<inter> set selected))"
  let ?b = "rat_of_nat (card (set selected - set corr))"
  have cpos: "0 < ?c" using False by (simp add: card_gt_0_iff)
  have "?a \<le> ?c" using card_inter_le [of corr selected] by simp
  then have "?a / ?c \<le> 1" using cpos by (simp add: divide_le_eq)
  moreover have "0 \<le> ?b / ?c" by simp
  ultimately have "max 0 (?a / ?c - ?b / ?c) \<le> 1" by linarith
  then show ?thesis
    using False by (simp add: score_multiple_nonempty)
qed

lemma score_question_bounds:
  "\<exists>s. score_question q selected = Inr s \<and> 0 \<le> s \<and> s \<le> 1"
  unfolding score_question_def
  using score_single_bounds score_multiple_bounds by simp

lemma correct_loop_total:
  "\<exists>acc' tp'. correct_loop answers i qs acc tp = Inr (acc', tp')"
proof (induction qs arbitrary: i acc tp)
  case Nil
  show ?case by simp
next
  case (Cons q qs)
  obtain s where "score_question q (answers_get answers i) = Inr s"
    using score_question_bounds by blast
  then show ?case using Cons.IH by (simp add: Let_def)
qed

lemma correct_loop_acc:
  assumes "correct_loop answers i qs acc tp = Inr (acc', tp')"
  shows "\<exists>new. acc' = acc @ new \<and> length new = length qs
           \<and> tp' = tp + sum_list (map pq_score new)
           \<and> (\<forall>k<length qs.
                 new ! k = \<lparr>pq_index = i + int k, pq_question = question (qs ! k),
                            pq_mode = mode (qs ! k), pq_correct = correct (qs ! k),
                            pq_selected = answers_get answers (i + int k),
                            pq_score = pq_score (new ! k), pq_max_score = 1\<rparr>
                 \<and> score_question (qs ! k) (answers_get answers (i + int k))
                       = Inr (pq_score (new ! k)))"
  using assms
proof (induction qs arbitrary: i acc tp)
  case Nil
  then show ?case by simp
next
  case (Cons q qs)
  let ?sel = "answers_get answers i"
  obtain s where s: "score_question q ?sel = Inr s"
    using score_question_bounds by blast
  let ?e = "\<lparr>pq_index = i, pq_question = question q, pq_mode = mode q,
             pq_correct = correct q, pq_selected = ?sel,
             pq_score = s, pq_max_score = 1\<rparr>"
  from Cons.prems s
  have "correct_loop answers (i + 1) qs (acc @ [?e]) (tp + s) = Inr (acc', tp')"
    by (simp add: Let_def)
  from Cons.IH [OF this] obtain new where
    new: "acc' = (acc @ [?e]) @ new" "length new = length qs"
         "tp' = tp + s + sum_list (map pq_score new)"
    and nth: "\<And>k. k < length qs \<Longrightarrow>
                 new ! k = \<lparr>pq_index = i + 1 + int k, pq_question = question (qs ! k),
                            pq_mode = mode (qs ! k), pq_correct = correct (qs ! k),
                            pq_selected = answers_get answers (i + 1 + int k),
                            pq_score = pq_score (new ! k), pq_max_score = 1\<rparr>
                 \<and> score_question (qs ! k) (answers_get answers (i + 1 + int k))
                       = Inr (pq_score (new ! k))"
    by blast
  show ?case
  proof (intro exI [of _ "?e # new"] conjI allI impI)
    show "acc' = acc @ ?e # new" using new(1) by simp
    show "length (?e # new) = length (q # qs)" using new(2) by simp
    show "tp' = tp + sum_list (map pq_score (?e # new))" using new(3) by simp
  next
    fix k assume k: "k < length (q # qs)"
    show "(?e # new) ! k = \<lparr>pq_index = i + int k, pq_question = question ((q # qs) ! k),
                            pq_mode = mode ((q # qs) ! k), pq_correct = correct ((q # qs) ! k),
                            pq_selected = answers_get answers (i + int k),
                            pq_score = pq_score ((?e # new) ! k), pq_max_score = 1\<rparr>"
    proof (cases k)
      case 0
      then show ?thesis by simp
    next
      case (Suc j)
      with k have j: "j < length qs" by simp
      have e: "i + 1 + int j = i + int k" using Suc by simp
      from nth [OF j] show ?thesis unfolding e using Suc by simp
    qed
    show "score_question ((q # qs) ! k) (answers_get answers (i + int k))
            = Inr (pq_score ((?e # new) ! k))"
    proof (cases k)
      case 0
      then show ?thesis using s by simp
    next
      case (Suc j)
      with k have j: "j < length qs" by simp
      have e: "i + 1 + int j = i + int k" using Suc by simp
      from nth [OF j] show ?thesis unfolding e using Suc by simp
    qed
  qed
qed

lemma correct_quiz_result:
  "\<exists>res. correct_quiz qs answers = Inr res
     \<and> length (per_question res) = length qs
     \<and> total_score res =
         (if qs = [] then 0
          else sum_list (map pq_score (per_question res)) / of_nat (length qs) * 100)
     \<and> (\<forall>k<length qs.
           per_question res ! k =
             \<lparr>pq_index = int k, pq_question = question (qs ! k),
              pq_mode = mode (qs ! k), pq_correct = correct (qs ! k),
              pq_selected = answers_get answers (int k),
              pq_score = pq_score (per_question res ! k), pq_max_score = 1\<rparr>
           \<and> score_question (qs ! k) (answers_get answers (int k))
                 = Inr (pq_score (per_question res ! k)))"
proof -
  obtain acc' tp' where run: "correct_loop answers 0 qs [] 0 = Inr (acc', tp')"
    using correct_loop_total by blast
  from correct_loop_acc [OF run] obtain new where
    new: "acc' = new" "length new = length qs" "tp' = sum_list (map pq_score new)"
    and nth: "\<forall>k<length qs.
                 new ! k = \<lparr>pq_index = 0 + int k, pq_question = question (qs ! k),
                            pq_mode = mode (qs ! k), pq_correct = correct (qs ! k),
                            pq_selected = answers_get answers (0 + int k),
                            pq_score = pq_score (new ! k), pq_max_score = 1\<rparr>
                 \<and> score_question (qs ! k) (answers_get answers (0 + int k))
                       = Inr (pq_score (new ! k))"
    by auto
  show ?thesis
  proof (cases "qs = []")
    case True
    with run new show ?thesis by (simp add: correct_quiz_def)
  next
    case False
    let ?res = "\<lparr>per_question = new, total_score = tp' / of_nat (length qs) * 100\<rparr>"
    have "correct_quiz qs answers = Inr ?res"
      using run new False by (simp add: correct_quiz_def py_truediv_def)
    moreover have "length (per_question ?res) = length qs" using new by simp
    moreover have "total_score ?res =
         (if qs = [] then 0
          else sum_list (map pq_score (per_question ?res)) / of_nat (length qs) * 100)"
      using False new by simp
    ultimately show ?thesis using nth by (intro exI [of _ ?res]) simp
  qed
qed




lemma scenario_B: "correct_quiz [q_paris] (map_of [(0, [''Lyon''])]) =
  Inr \<lparr>per_question = [\<lparr>pq_index = 0, pq_question = ''Capital of France?'', pq_mode = ''single'',
         pq_correct = [''Paris''], pq_selected = [''Lyon''], pq_score = 0, pq_max_score = 1\<rparr>],
       total_score = 0\<rparr>"
  by (simp add: correct_quiz_def q_paris_def score_question_def is_single_def score_single_def
      py_getitem_def py_truediv_def answers_get_def Let_def)

lemma scenario_E: "correct_quiz [] Map.empty = Inr \<lparr>per_question = [], total_score = 0\<rparr>"
  by (simp add: correct_quiz_def)


lemma score_question_no_selection: "score_question q [] = Inr 0"
proof (cases "correct q = []")
  case True
  then show ?thesis
    by (simp add: score_question_def score_single_def score_multiple_empty)
next
  case False
  then show ?thesis
    by (simp add: score_question_def score_single_def score_multiple_nonempty)
qed

text \<open>
  Claim C8. \<open>correct_quiz\<close> never raises. At a position the answer mapping has no entry
  for, the selection recorded is the empty list, and the score is the one the strategy of
  the question gives to the empty selection, which is 0.
\<close>

theorem correct_quiz_missing_answer:
  "\<exists>res. correct_quiz qs answers = Inr res
     \<and> (\<forall>k<length qs. answers (int k) = None \<longrightarrow>
           pq_selected (per_question res ! k) = []
           \<and> score_question (qs ! k) [] = Inr (pq_score (per_question res ! k))
           \<and> pq_score (per_question res ! k) = 0)"
proof -
  from correct_quiz_result [of qs answers] obtain res where
    run: "correct_quiz qs answers = Inr res"
    and nth: "\<And>k. k < length qs \<Longrightarrow>
           per_question res ! k =
             \<lparr>pq_index = int k, pq_question = question (qs ! k),
              pq_mode = mode (qs ! k), pq_correct = correct (qs ! k),
              pq_selected = answers_get answers (int k),
              pq_score = pq_score (per_question res ! k), pq_max_score = 1\<rparr>
           \<and> score_question (qs ! k) (answers_get answers (int k))
                 = Inr (pq_score (per_question res ! k))"
    by blast
  have "pq_selected (per_question res ! k) = []
        \<and> score_question (qs ! k) [] = Inr (pq_score (per_question res ! k))
        \<and> pq_score (per_question res ! k) = 0"
    if k: "k < length qs" and none: "answers (int k) = None" for k
  proof -
    have sel: "answers_get answers (int k) = []"
      using none by (simp add: answers_get_def)
    from nth [OF k] have
      e: "per_question res ! k =
             \<lparr>pq_index = int k, pq_question = question (qs ! k),
              pq_mode = mode (qs ! k), pq_correct = correct (qs ! k),
              pq_selected = [],
              pq_score = pq_score (per_question res ! k), pq_max_score = 1\<rparr>"
      and s: "score_question (qs ! k) [] = Inr (pq_score (per_question res ! k))"
      unfolding sel by simp_all
    have "pq_selected (per_question res ! k) = []"
      by (subst e) simp
    moreover have "pq_score (per_question res ! k) = 0"
      using s score_question_no_selection [of "qs ! k"] by simp
    ultimately show ?thesis using s by simp
  qed
  with run show ?thesis by blast
qed

theorem correct_quiz_missing_answer_witness:
  "\<exists>res. correct_quiz [q_paris, q_letters] (map_of [(0, [''Paris''])]) = Inr res
     \<and> (1::nat) < length [q_paris, q_letters]
     \<and> map_of [(0::int, [''Paris''])] (int 1) = None
     \<and> pq_selected (per_question res ! 1) = []
     \<and> pq_score (per_question res ! 1) = 0"
proof -
  have k: "(1::nat) < length [q_paris, q_letters]" by simp
  have none: "map_of [(0::int, [''Paris''])] (int 1) = None" by simp
  from correct_quiz_missing_answer [of "[q_paris, q_letters]" "map_of [(0, [''Paris''])]"]
  obtain res where
    run: "correct_quiz [q_paris, q_letters] (map_of [(0, [''Paris''])]) = Inr res"
    and miss: "\<forall>k<length [q_paris, q_letters].
           map_of [(0::int, [''Paris''])] (int k) = None \<longrightarrow>
           pq_selected (per_question res ! k) = []
           \<and> score_question ([q_paris, q_letters] ! k) [] = Inr (pq_score (per_question res ! k))
           \<and> pq_score (per_question res ! k) = 0"
    by blast
  from miss k none have
    "pq_selected (per_question res ! 1) = [] \<and> pq_score (per_question res ! 1) = 0"
    by blast
  with run k none show ?thesis by blast
qed

section \<open>Properties of the dataset filter and of the generator\<close>

lemma new_list_simps [simp]:
  "fst (new_list xs h) = next_ref h"
  "lists (snd (new_list xs h)) = (lists h)(next_ref h := xs)"
  "datasets (snd (new_list xs h)) = datasets h"
  "next_ref (snd (new_list xs h)) = Suc (next_ref h)"
  by (simp_all add: new_list_def)

lemma get_questions_by_tags_effect:
  "\<exists>xs. get_questions_by_tags self tgs h = new_list xs h
        \<and> xs = questionsByTags_spec (tag_filter tgs) (lists h (questions (datasets h self)))"
  by (cases tgs)
     (auto simp: get_questions_by_tags_def questionsByTags_spec_def tag_filter_def Let_def Int_commute)

lemma pool_of_eq:
  "pool_of self tgs h = questionsByTags_spec (tag_filter tgs) (lists h (questions (datasets h self)))"
proof -
  obtain xs where "get_questions_by_tags self tgs h = new_list xs h"
    and "xs = questionsByTags_spec (tag_filter tgs) (lists h (questions (datasets h self)))"
    using get_questions_by_tags_effect by blast
  then show ?thesis by (simp add: pool_of_def)
qed

text \<open>
  Claim C6. The list \<open>get_questions_by_tags\<close> returns holds exactly the questions of the
  dataset whose tags intersect the filter, in load order: it is the specification's filter
  of the loaded sequence, a subsequence of it. With no filter (\<open>None\<close>) or the empty one it
  is the loaded sequence itself.
\<close>

theorem get_questions_by_tags_filter:
  "pool_of self tgs h
     = questionsByTags_spec (tag_filter tgs) (lists h (questions (datasets h self)))
   \<and> pool_of self None h = lists h (questions (datasets h self))
   \<and> pool_of self (Some []) h = lists h (questions (datasets h self))
   \<and> subseq (pool_of self tgs h) (lists h (questions (datasets h self)))
   \<and> (\<forall>q. q \<in> set (pool_of self tgs h) \<longleftrightarrow>
          q \<in> set (lists h (questions (datasets h self)))
          \<and> (tag_filter tgs = {} \<or> set (tags q) \<inter> tag_filter tgs \<noteq> {}))"
  by (auto simp: pool_of_eq questionsByTags_spec_def tag_filter_def)

lemma length_shuffle_from [simp]: "length (shuffle_from draws i xs) = length xs"
  by (induction i arbitrary: xs) (simp_all add: Let_def)

lemma length_shuffle [simp]: "length (shuffle draws xs) = length xs"
  by (simp add: shuffle_def)

lemma py_slice_to_nonneg: "0 \<le> k \<Longrightarrow> py_slice_to xs k = take (nat k) xs"
  by (simp add: py_slice_to_def)

lemma generate_quiz:
  "quiz_of (generate self tgs n sh draws h) =
     (let pool = pool_of (dataset self) tgs h;
          pool' = (if sh then shuffle draws pool else pool)
      in if pool = [] then [] else py_slice_to pool' (min n (int (length pool'))))"
proof -
  obtain xs where g: "get_questions_by_tags (dataset self) tgs h = new_list xs h"
    using get_questions_by_tags_effect by blast
  have p: "pool_of (dataset self) tgs h = xs"
    by (simp add: pool_of_def g)
  show ?thesis
    unfolding p
    by (simp add: generate_def g new_list_def quiz_of_def random_shuffle_def Let_def)
qed

lemma mset_shuffle_from:
  "i < length xs \<or> i = 0 \<Longrightarrow> mset (shuffle_from draws i xs) = mset xs"
proof (induction i arbitrary: xs)
  case 0
  show ?case by simp
next
  case (Suc i)
  let ?j = "draws (Suc i) mod (Suc i + 1)"
  from Suc.prems have i: "Suc i < length xs" by simp
  have "?j < Suc i + 1" by simp
  then have j: "?j < length xs" using i by linarith
  let ?ys = "xs[Suc i := xs ! ?j, ?j := xs ! Suc i]"
  have "mset ?ys = mset xs" by (rule mset_swap [OF j i])
  moreover have "i < length ?ys \<or> i = 0" using i by simp
  ultimately show ?case using Suc.IH [of ?ys] by (simp add: Let_def)
qed

lemma mset_shuffle [simp]: "mset (shuffle draws xs) = mset xs"
  unfolding shuffle_def by (rule mset_shuffle_from) (cases xs, simp_all)

text \<open>
  Claim C5. For a count \<open>n \<ge> 0\<close>, whatever the tags, the shuffle flag and the random
  draws, the quiz \<open>generate\<close> returns has \<open>min(n, len(pool))\<close> questions, where \<open>pool\<close>
  is what \<open>get_questions_by_tags\<close> gives for the tags. It is empty when the pool is empty
  or \<open>n\<close> is 0, and when \<open>n\<close> is at least the size of the pool it holds all the questions
  of the pool. \<open>generate\<close> has no failing branch: it returns in every case.
\<close>

theorem generate_length:
  assumes "0 \<le> n"
  shows "length (quiz_of (generate self tgs n sh draws h))
           = min (nat n) (length (pool_of (dataset self) tgs h))
         \<and> (pool_of (dataset self) tgs h = [] \<or> n = 0 \<longrightarrow>
              quiz_of (generate self tgs n sh draws h) = [])
         \<and> (int (length (pool_of (dataset self) tgs h)) \<le> n \<longrightarrow>
              mset (quiz_of (generate self tgs n sh draws h))
                = mset (pool_of (dataset self) tgs h))"
  using assms
  by (auto simp: generate_quiz Let_def py_slice_to_nonneg min_def)

lemma generate_frame:
  "datasets (snd (generate self tgs n sh draws h)) = datasets h
   \<and> (\<forall>a<next_ref h. lists (snd (generate self tgs n sh draws h)) a = lists h a)
   \<and> next_ref h \<le> next_ref (snd (generate self tgs n sh draws h))"
proof -
  obtain xs where g: "get_questions_by_tags (dataset self) tgs h = new_list xs h"
    using get_questions_by_tags_effect by blast
  show ?thesis
    by (simp add: generate_def g new_list_def random_shuffle_def Let_def)
qed

lemma pool_of_frame:
  assumes "datasets h' = datasets h"
    and "lists h' (questions (datasets h self)) = lists h (questions (datasets h self))"
  shows "pool_of self tgs h' = pool_of self tgs h"
  using assms by (simp add: pool_of_eq)

text \<open>
  Claim C9. \<open>generate\<close> leaves the dataset object and the list of its questions as they
  were, shuffle or not: the list it shuffles and the list it returns are new objects. So a
  later \<open>get_questions_by_tags\<close> gives what it gave before, and a later \<open>generate\<close> without
  shuffle returns the questions in load order.
\<close>

theorem generate_keeps_dataset:
  assumes "questions (datasets h (dataset self)) < next_ref h"
  shows "datasets (snd (generate self tgs n sh draws h)) = datasets h
         \<and> lists (snd (generate self tgs n sh draws h)) (questions (datasets h (dataset self)))
             = lists h (questions (datasets h (dataset self)))
         \<and> fst (generate self tgs n sh draws h) \<noteq> questions (datasets h (dataset self))
         \<and> pool_of (dataset self) tgs' (snd (generate self tgs n sh draws h))
             = pool_of (dataset self) tgs' h
         \<and> quiz_of (generate self tgs' n' False draws' (snd (generate self tgs n sh draws h)))
             = quiz_of (generate self tgs' n' False draws' h)"
proof -
  let ?h' = "snd (generate self tgs n sh draws h)"
  let ?d = "questions (datasets h (dataset self))"
  from generate_frame [of self tgs n sh draws h] assms
  have ds: "datasets ?h' = datasets h" and ls: "lists ?h' ?d = lists h ?d"
    by simp_all
  have pool: "pool_of (dataset self) t ?h' = pool_of (dataset self) t h" for t
    using ds ls by (rule pool_of_frame)
  obtain xs where g: "get_questions_by_tags (dataset self) tgs h = new_list xs h"
    using get_questions_by_tags_effect by blast
  have fresh: "next_ref h < fst (generate self tgs n sh draws h)"
    by (simp add: generate_def g new_list_def random_shuffle_def Let_def)
  have "fst (generate self tgs n sh draws h) \<noteq> ?d"
    using fresh assms by simp
  moreover have "quiz_of (generate self tgs' n' False draws' ?h')
             = quiz_of (generate self tgs' n' False draws' h)"
    by (simp add: generate_quiz pool)
  ultimately show ?thesis using ds ls pool by simp
qed


lemma pool_example: "pool_of 0 (Some []) h_example = [q_paris, q_letters, q_rome]"
  by (simp add: pool_of_eq questionsByTags_spec_def tag_filter_def h_example_def)

lemma pool_example_None: "pool_of 0 None h_example = [q_paris, q_letters, q_rome]"
  by (simp add: pool_of_eq questionsByTags_spec_def tag_filter_def h_example_def)

lemma pool_example_geo: "pool_of 0 (Some [''geography'']) h_example = [q_paris, q_rome]"
  by (simp add: pool_of_eq questionsByTags_spec_def tag_filter_def h_example_def
      q_paris_def q_letters_def q_rome_def)

lemma shuffle_example: "shuffle first_draws [a, b, c] = [b, c, a]"
  by (simp add: shuffle_def first_draws_def numeral_2_eq_2)

lemma scenario_D:
  "quiz_of (generate g_example (Some []) 10 True first_draws h_example)
     = [q_letters, q_rome, q_paris]"
  by (simp add: generate_quiz g_example_def pool_example shuffle_example py_slice_to_def)

theorem generate_length_witness:
  "(0::int) \<le> 10
   \<and> length (quiz_of (generate g_example (Some []) 10 True first_draws h_example)) = 3"
proof -
  have h: "(0::int) \<le> 10" by simp
  from generate_length [OF h, of g_example "Some []" True first_draws h_example]
  have "length (quiz_of (generate g_example (Some []) 10 True first_draws h_example)) = 3"
    by (simp add: g_example_def pool_example)
  with h show ?thesis by (rule conjI)
qed

theorem generate_keeps_dataset_witness:
  "questions (datasets h_example (dataset g_example)) < next_ref h_example
   \<and> lists (snd (generate g_example None 10 True first_draws h_example)) 1
       = [q_paris, q_letters, q_rome]
   \<and> quiz_of (generate g_example None 10 True first_draws h_example)
       = [q_letters, q_rome, q_paris]
   \<and> pool_of 0 (Some [''geography'']) (snd (generate g_example None 10 True first_draws h_example))
       = [q_paris, q_rome]"
proof -
  let ?G = "generate g_example None 10 True first_draws h_example"
  have h: "questions (datasets h_example (dataset g_example)) < next_ref h_example"
    by (simp add: h_example_def)
  have d: "questions (datasets h_example (dataset g_example)) = 1"
    by (simp add: h_example_def)
  have dg: "dataset g_example = 0"
    by (simp add: g_example_def)
  have l1: "lists h_example 1 = [q_paris, q_letters, q_rome]"
    by (simp add: h_example_def)
  note keeps = generate_keeps_dataset [OF h, of None 10 True first_draws
                 "Some [''geography'']" 0 first_draws]
  from keeps have "lists (snd ?G) (questions (datasets h_example (dataset g_example)))
                     = lists h_example (questions (datasets h_example (dataset g_example)))"
    by blast
  then have a: "lists (snd ?G) 1 = [q_paris, q_letters, q_rome]"
    unfolding d l1 .
  from keeps have "pool_of (dataset g_example) (Some [''geography'']) (snd ?G)
                     = pool_of (dataset g_example) (Some [''geography'']) h_example"
    by blast
  then have b: "pool_of 0 (Some [''geography'']) (snd ?G) = [q_paris, q_rome]"
    unfolding dg pool_example_geo .
  have c: "quiz_of ?G = [q_letters, q_rome, q_paris]"
    by (simp add: generate_quiz dg pool_example_None shuffle_example py_slice_to_def)
  from h a c b show ?thesis by blast
qed

section \<open>Properties of \<open>load\<close>\<close>

lemma load_item_rec_paris: "load_item rec_paris = Returned q_paris"
  by (simp add: load_item_def rec_paris_def Question_init_def obj_get_def q_paris_def)


lemma load_item_rec_both: "load_item rec_both = Returned q_both"
  by (simp add: load_item_def rec_both_def Question_init_def obj_get_def q_both_def)




lemma load_loop_Returned:
  "load_loop items acc = Returned qs \<Longrightarrow>
     \<exists>new. qs = acc @ new \<and> map load_item items = map Returned new"
proof (induction items arbitrary: acc)
  case Nil
  then show ?case by simp
next
  case (Cons item items)
  show ?case
  proof (cases "load_item item")
    case (Raised e)
    with Cons.prems show ?thesis by simp
  next
    case (Returned q)
    with Cons.prems have "load_loop items (acc @ [q]) = Returned qs" by simp
    from Cons.IH [OF this] obtain new where
      "qs = (acc @ [q]) @ new" "map load_item items = map Returned new" by blast
    then show ?thesis using Returned by (intro exI [of _ "q # new"]) simp
  next
    case Untyped
    with Cons.prems show ?thesis by (simp split: outcome.splits)
  qed
qed








lemma load_example_missing:
  "fst (load 0 (Some ''nowhere.json'') ''quiz_dataset.json'' fs_example h_example)
     = Raised FileNotFoundError"
  by (simp add: load_def fs_example_def)






lemma load_item_mode:
  assumes "load_item (JObj kvs) = Returned q"
  shows "(map_of (rev kvs) ''mode'' = None \<longrightarrow> mode q = ''single'')
       \<and> (\<forall>m. map_of (rev kvs) ''mode'' = Some (JStr m) \<longrightarrow> mode q = m)"
  using assms
  by (auto simp: load_item_def Question_init_def obj_get_def
      split: json.splits option.splits if_splits)

lemma load_loop_nth:
  assumes "load_loop items [] = Returned qs" and "k < length items"
  shows "load_item (items ! k) = Returned (qs ! k)"
proof -
  from load_loop_Returned [OF assms(1)] have m: "map load_item items = map Returned qs"
    by simp
  then have "length items = length qs" by (metis length_map)
  with m assms(2) show ?thesis by (metis nth_map)
qed

text \<open>
  Claim C4, as amended. For a question loaded from a record and placed in a quiz: when the
  record has no \<open>mode\<close> member the question has mode \<open>single\<close> and \<open>correct_quiz\<close>
  scores it with \<open>score_single\<close>; when the record has a string as its mode the question
  keeps that string, and \<open>correct_quiz\<close> scores it with \<open>score_single\<close> if the string is
  \<open>single\<close> and with \<open>score_multiple\<close> if it is anything else, recognized or not.
\<close>

theorem loaded_mode_strategy:
  assumes "load_loop items [] = Returned qs"
    and "k < length items" and "items ! k = JObj kvs"
    and "j < length quiz" and "quiz ! j = qs ! k"
    and "correct_quiz quiz answers = Inr res"
  shows "(map_of (rev kvs) ''mode'' = None \<longrightarrow>
            mode (qs ! k) = ''single''
            \<and> Inr (pq_score (per_question res ! j))
                = score_single (correct (qs ! k)) (answers_get answers (int j)))
       \<and> (\<forall>m. map_of (rev kvs) ''mode'' = Some (JStr m) \<longrightarrow>
            mode (qs ! k) = m
            \<and> (m = ''single'' \<longrightarrow>
                 Inr (pq_score (per_question res ! j))
                   = score_single (correct (qs ! k)) (answers_get answers (int j)))
            \<and> (m \<noteq> ''single'' \<longrightarrow>
                 Inr (pq_score (per_question res ! j))
                   = score_multiple (correct (qs ! k)) (answers_get answers (int j))))"
proof -
  from load_loop_nth [OF assms(1,2)] assms(3)
  have "load_item (JObj kvs) = Returned (qs ! k)" by simp
  note md = load_item_mode [OF this]
  from correct_quiz_result [of quiz answers] assms(6,4)
  have "score_question (quiz ! j) (answers_get answers (int j))
          = Inr (pq_score (per_question res ! j))"
    by auto
  then have sc: "Inr (pq_score (per_question res ! j))
          = score_question (qs ! k) (answers_get answers (int j))"
    using assms(5) by simp
  show ?thesis
    using md sc by (auto simp: score_question_def is_single_def)
qed

text \<open>
  The claim as stated fails: the record \<open>rec_both\<close> has the unrecognized mode \<open>both\<close>,
  which is kept, and the selection \<open>A\<close> gets the score 1/2 of \<open>score_multiple\<close> where
  \<open>score_single\<close> gives 1.
\<close>

theorem loaded_mode_counterexample:
  "load_loop [rec_both] [] = Returned [q_both]
   \<and> mode q_both = ''both''
   \<and> correct_quiz [q_both] (map_of [(0, [''A''])])
       = Inr \<lparr>per_question =
               [\<lparr>pq_index = 0, pq_question = ''Which letters are vowels?'', pq_mode = ''both'',
                 pq_correct = [''A'', ''E''], pq_selected = [''A''],
                 pq_score = 1 / 2, pq_max_score = 1\<rparr>],
              total_score = 50\<rparr>
   \<and> score_single (correct q_both) [''A''] = Inr 1
   \<and> score_multiple (correct q_both) [''A''] = Inr (1 / 2)"
  by (simp add: load_item_rec_both q_both_def correct_quiz_def score_question_def is_single_def
      score_single_def score_multiple_def py_getitem_def py_truediv_def answers_get_def Let_def)


lemma load_loop_example:
  "load_loop [rec_paris, rec_both] [] = Returned [q_paris, q_both]"
  by (simp add: load_item_rec_paris load_item_rec_both)

lemma correct_quiz_example:
  "correct_quiz [q_both, q_paris] (map_of [(0, [''A'']), (1, [''Paris''])])
     = Inr \<lparr>per_question =
             [\<lparr>pq_index = 0, pq_question = ''Which letters are vowels?'', pq_mode = ''both'',
               pq_correct = [''A'', ''E''], pq_selected = [''A''],
               pq_score = 1 / 2, pq_max_score = 1\<rparr>,
              \<lparr>pq_index = 1, pq_question = ''Capital of France?'', pq_mode = ''single'',
               pq_correct = [''Paris''], pq_selected = [''Paris''],
               pq_score = 1, pq_max_score = 1\<rparr>],
            total_score = 75\<rparr>"
  by (simp add: q_both_def q_paris_def correct_quiz_def score_question_def is_single_def
      score_single_def score_multiple_def py_getitem_def py_truediv_def answers_get_def Let_def)

theorem loaded_mode_strategy_witness:
  "load_loop [rec_paris, rec_both] [] = Returned [q_paris, q_both]
   \<and> mode ([q_paris, q_both] ! 0) = ''single''
   \<and> score_single (correct ([q_paris, q_both] ! 0))
         (answers_get (map_of [(0, [''A'']), (1, [''Paris''])]) (int 1)) = Inr 1
   \<and> mode ([q_paris, q_both] ! 1) = ''both''
   \<and> score_multiple (correct ([q_paris, q_both] ! 1))
         (answers_get (map_of [(0, [''A'']), (1, [''Paris''])]) (int 0)) = Inr (1 / 2)"
proof -
  let ?items = "[rec_paris, rec_both]"
  let ?qs = "[q_paris, q_both]"
  let ?quiz = "[q_both, q_paris]"
  let ?answers = "map_of [(0::int, [''A'']), (1, [''Paris''])]"
  let ?res = "\<lparr>per_question =
             [\<lparr>pq_index = 0, pq_question = ''Which letters are vowels?'', pq_mode = ''both'',
               pq_correct = [''A'', ''E''], pq_selected = [''A''],
               pq_score = 1 / 2, pq_max_score = 1\<rparr>,
              \<lparr>pq_index = 1, pq_question = ''Capital of France?'', pq_mode = ''single'',
               pq_correct = [''Paris''], pq_selected = [''Paris''],
               pq_score = 1, pq_max_score = 1\<rparr>],
            total_score = 75\<rparr>"
  let ?kvs0 = "[(''question'', JStr ''Capital of France?''),
                (''choices'', JArr [JStr ''Paris'', JStr ''Lyon'']),
                (''correct'', JArr [JStr ''Paris'']),
                (''tags'', JArr [JStr ''geography''])]"
  let ?kvs1 = "[(''question'', JStr ''Which letters are vowels?''),
                (''choices'', JArr [JStr ''A'', JStr ''B'', JStr ''E'', JStr ''D'']),
                (''correct'', JArr [JStr ''A'', JStr ''E'']),
                (''mode'', JStr ''both''),
                (''tags'', JArr [JStr ''letters''])]"
  have ld: "load_loop ?items [] = Returned ?qs" by (rule load_loop_example)
  have cq: "correct_quiz ?quiz ?answers = Inr ?res" by (rule correct_quiz_example)
  have k0: "0 < length ?items" and k1: "1 < length ?items" by simp_all
  have i0: "?items ! 0 = JObj ?kvs0" by (simp add: rec_paris_def)
  have i1: "?items ! 1 = JObj ?kvs1" by (simp add: rec_both_def)
  have j0: "0 < length ?quiz" and j1: "1 < length ?quiz" by simp_all
  have e0: "?quiz ! 1 = ?qs ! 0" and e1: "?quiz ! 0 = ?qs ! 1" by simp_all
  have m0: "map_of (rev ?kvs0) ''mode'' = None" by simp
  have m1: "map_of (rev ?kvs1) ''mode'' = Some (JStr ''both'')" by simp
  have ne: "''both'' \<noteq> ''single''" by simp
  from loaded_mode_strategy [OF ld k0 i0 j1 e0 cq] m0
  have a: "mode (?qs ! 0) = ''single''"
    and b: "Inr (pq_score (per_question ?res ! 1))
              = score_single (correct (?qs ! 0)) (answers_get ?answers (int 1))"
    by blast+
  from loaded_mode_strategy [OF ld k1 i1 j0 e1 cq] m1 ne
  have c: "mode (?qs ! 1) = ''both''"
    and d: "Inr (pq_score (per_question ?res ! 0))
              = score_multiple (correct (?qs ! 1)) (answers_get ?answers (int 0))"
    by blast+
  from b have b': "score_single (correct (?qs ! 0)) (answers_get ?answers (int 1)) = Inr 1"
    by simp
  from d have d': "score_multiple (correct (?qs ! 1)) (answers_get ?answers (int 0)) = Inr (1 / 2)"
    by simp
  from ld a b' c d' show ?thesis by blast
qed


end
